theory Spec2Isabelle
  imports Main "HOL-Library.AList"
begin

section \<open>Python values\<close>

text \<open>
  The objects that \<^verbatim>\<open>Dispatcher\<close> in \<^verbatim>\<open>alembic/util/langhelpers.py\<close> is given as targets:
  a string, a type (a class, known by its name), a tuple, or an instance of any other
  class (its class and an object identity). A qualifier is a string. \<open>PyInst c i\<close>
  stands for an instance of a class \<open>c\<close> that derives from none of \<open>str\<close>, \<open>type\<close>
  and \<open>tuple\<close>.
\<close>

type_synonym tyname = string

datatype pyobj =
    PyStr string
  | PyType tyname
  | PyTuple "pyobj list"
  | PyInst tyname nat

text \<open>The exceptions the dispatcher's own code raises.\<close>

datatype pyerror =
    AssertionError
  | ValueError pyobj  \<comment> \<open>\<open>"no dispatch function for object: %s"\<close>, with the object the message names\<close>
  | TypeError
  | AttributeError

text \<open>\<^verbatim>\<open>isinstance(obj, string_types)\<close>, \<^verbatim>\<open>isinstance(obj, type)\<close> and \<^verbatim>\<open>type(obj)\<close>.\<close>

fun isinstance_str :: "pyobj \<Rightarrow> bool" where
  "isinstance_str (PyStr s) = True"
| "isinstance_str obj = False"

fun isinstance_type :: "pyobj \<Rightarrow> bool" where
  "isinstance_type (PyType c) = True"
| "isinstance_type obj = False"

fun type_of :: "pyobj \<Rightarrow> tyname" where
  "type_of (PyStr s) = ''str''"
| "type_of (PyType c) = ''type''"
| "type_of (PyTuple xs) = ''tuple''"
| "type_of (PyInst c i) = c"

text \<open>
  \<^verbatim>\<open>"... %s" % obj\<close> with one placeholder: a tuple on the right is the argument tuple, so
  a one-element tuple formats its element and any other tuple raises \<^verbatim>\<open>TypeError\<close>;
  any other object is formatted itself. The function returns the object the message names.
\<close>

fun percent_s :: "pyobj \<Rightarrow> pyerror + pyobj" where
  "percent_s (PyTuple [x]) = Inr x"
| "percent_s (PyTuple xs) = Inl TypeError"
| "percent_s obj = Inr obj"

section \<open>The store\<close>

text \<open>
  A registry value is a function object (a handler, of the abstract type \<open>'h\<close>) or a
  reference to a list object. Lists and dispatchers are mutable objects, so they live in
  a store and are named by their addresses; \<open>nlists\<close> and \<open>nobjs\<close> are the next free
  addresses. A \<^verbatim>\<open>dict\<close> keeps its keys in insertion order: an association list with
  \<open>map_of\<close> for lookup and \<open>AList.update\<close> for \<^verbatim>\<open>d[k] = v\<close>.
\<close>

datatype 'h pyval = Fn 'h | ListRef nat

type_synonym 'h pydict = "((pyobj \<times> string) \<times> 'h pyval) list"

record 'h dispatcher =
  registry :: "'h pydict"
  uselist :: bool

record 'h store =
  objs :: "nat \<Rightarrow> 'h dispatcher"
  nobjs :: nat
  lists :: "nat \<Rightarrow> 'h list"
  nlists :: nat

definition new_list :: "'h store \<Rightarrow> 'h list \<Rightarrow> 'h store \<times> nat" where
  "new_list s xs = (s\<lparr>lists := (lists s)(nlists s := xs), nlists := Suc (nlists s)\<rparr>, nlists s)"

definition list_append :: "'h store \<Rightarrow> nat \<Rightarrow> 'h \<Rightarrow> 'h store" where
  "list_append s a fn = s\<lparr>lists := (lists s)(a := lists s a @ [fn])\<rparr>"

definition setitem :: "'h store \<Rightarrow> nat \<Rightarrow> pyobj \<times> string \<Rightarrow> 'h pyval \<Rightarrow> 'h store" where
  "setitem s self key v =
     s\<lparr>objs := (objs s)(self := (objs s self)\<lparr>registry := AList.update key v (registry (objs s self))\<rparr>)\<rparr>"

section \<open>Dispatcher\<close>

text \<open>\<^verbatim>\<open>Dispatcher.__init__(self, uselist=False)\<close>: a new object with an empty registry.\<close>

definition Dispatcher :: "'h store \<Rightarrow> bool \<Rightarrow> 'h store \<times> nat" where
  "Dispatcher s ul =
     (s\<lparr>objs := (objs s)(nobjs s := \<lparr>registry = [], uselist = ul\<rparr>), nobjs := Suc (nobjs s)\<rparr>,
      nobjs s)"

text \<open>
  \<^verbatim>\<open>dispatch_for(target, qualifier)(fn)\<close>, the decorator applied to \<open>fn\<close>. With
  \<open>uselist\<close>, \<^verbatim>\<open>setdefault(key, [])\<close> stores a new empty list when the key is missing, and
  \<^verbatim>\<open>.append(fn)\<close> extends the list found (a function object has no \<^verbatim>\<open>append\<close>). The
  empty list built for a key that is present is dropped at once and is not allocated
  here. Without \<open>uselist\<close>, the \<^verbatim>\<open>assert\<close> raises when the key is present (Python's
  default mode, in which \<^verbatim>\<open>assert\<close> statements run). The result is the store after the
  call and what the call raised or returned.
\<close>

definition dispatch_for ::
  "'h store \<Rightarrow> nat \<Rightarrow> pyobj \<Rightarrow> string \<Rightarrow> 'h \<Rightarrow> 'h store \<times> (pyerror + 'h)" where
  "dispatch_for s self target qualifier fn =
     (if uselist (objs s self) then
        (case map_of (registry (objs s self)) (target, qualifier) of
           None \<Rightarrow>
             (let (s1, a) = new_list s [];
                  s2 = setitem s1 self (target, qualifier) (ListRef a)
              in (list_append s2 a fn, Inr fn))
         | Some (ListRef a) \<Rightarrow> (list_append s a fn, Inr fn)
         | Some (Fn g) \<Rightarrow> (s, Inl AttributeError))
      else if map_of (registry (objs s self)) (target, qualifier) \<noteq> None
        then (s, Inl AssertionError)
      else (setitem s self (target, qualifier) (Fn fn), Inr fn))"

text \<open>
  What \<^verbatim>\<open>dispatch\<close> returns: the registry value itself, or the closure \<^verbatim>\<open>go\<close> over it.
\<close>

datatype 'h dispatched = Bare "'h pyval" | Go "'h pyval"

definition fn_or_list :: "'h dispatcher \<Rightarrow> 'h pyval \<Rightarrow> 'h dispatched" where
  "fn_or_list d v = (if uselist d then Go v else Bare v)"

text \<open>
  The probe sequence. \<^verbatim>\<open>__mro__\<close> is computed by Python when a class is created; the
  model takes it as the parameter \<open>mro\<close>, from a class to the list of its ancestors.
  \<open>mro_attr\<close> is the attribute \<^verbatim>\<open>__mro__\<close> of a type object (only type objects are asked
  for it).
\<close>

fun mro_attr :: "(tyname \<Rightarrow> tyname list) \<Rightarrow> pyobj \<Rightarrow> pyobj list" where
  "mro_attr mro (PyType c) = map PyType (mro c)"
| "mro_attr mro obj = []"

definition targets :: "(tyname \<Rightarrow> tyname list) \<Rightarrow> pyobj \<Rightarrow> pyobj list" where
  "targets mro obj =
     (if isinstance_str obj then [obj]
      else if isinstance_type obj then mro_attr mro obj
      else mro_attr mro (PyType (type_of obj)))"

text \<open>The \<^verbatim>\<open>for spcls in targets\<close> loop; \<open>None\<close> is the loop's \<^verbatim>\<open>else\<close> branch.\<close>

fun dispatch_loop :: "'h dispatcher \<Rightarrow> string \<Rightarrow> pyobj list \<Rightarrow> 'h dispatched option" where
  "dispatch_loop d qualifier [] = None"
| "dispatch_loop d qualifier (spcls # rest) =
     (if qualifier \<noteq> ''default'' \<and> map_of (registry d) (spcls, qualifier) \<noteq> None
        then Some (fn_or_list d (the (map_of (registry d) (spcls, qualifier))))
      else if map_of (registry d) (spcls, ''default'') \<noteq> None
        then Some (fn_or_list d (the (map_of (registry d) (spcls, ''default''))))
      else dispatch_loop d qualifier rest)"

definition dispatch ::
  "'h store \<Rightarrow> nat \<Rightarrow> (tyname \<Rightarrow> tyname list) \<Rightarrow> pyobj \<Rightarrow> string
     \<Rightarrow> 'h store \<times> (pyerror + 'h dispatched)" where
  "dispatch s self mro obj qualifier =
     (case dispatch_loop (objs s self) qualifier (targets mro obj) of
        Some r \<Rightarrow> (s, Inr r)
      | None \<Rightarrow>
          (case percent_s obj of
             Inl e \<Rightarrow> (s, Inl e)
           | Inr named \<Rightarrow> (s, Inl (ValueError named))))"

text \<open>
  \<^verbatim>\<open>branch\<close>. \<^verbatim>\<open>d = Dispatcher()\<close> takes the default \<open>uselist=False\<close>. With
  \<open>self.uselist\<close>, \<^verbatim>\<open>d._registry.update(...)\<close> consumes the generator, which builds a new
  list for every key of \<open>self._registry\<close> in order (iterating over a function object
  raises \<^verbatim>\<open>TypeError\<close>); otherwise the entries are stored as they are.
\<close>

fun update_copied :: "'h store \<Rightarrow> nat \<Rightarrow> 'h pydict \<Rightarrow> 'h store \<times> (pyerror + unit)" where
  "update_copied s d [] = (s, Inr ())"
| "update_copied s d ((k, v) # rest) =
     (case v of
        ListRef a \<Rightarrow>
          (let (s1, a') = new_list s (lists s a)
           in update_copied (setitem s1 d k (ListRef a')) d rest)
      | Fn g \<Rightarrow> (s, Inl TypeError))"

fun update_items :: "'h store \<Rightarrow> nat \<Rightarrow> 'h pydict \<Rightarrow> 'h store" where
  "update_items s d [] = s"
| "update_items s d ((k, v) # rest) = update_items (setitem s d k v) d rest"

definition branch :: "'h store \<Rightarrow> nat \<Rightarrow> 'h store \<times> (pyerror + nat)" where
  "branch s self =
     (let (s1, d) = Dispatcher s False in
      if uselist (objs s1 self) then
        (case update_copied s1 d (registry (objs s1 self)) of
           (s2, Inl e) \<Rightarrow> (s2, Inl e)
         | (s2, Inr u) \<Rightarrow> (s2, Inr d))
      else (update_items s1 d (registry (objs s1 self)), Inr d))"

section \<open>Calling what dispatch returns\<close>

text \<open>
  A handler is a Python function: called with the arguments \<open>'a\<close> in a world \<open>'w\<close>, it
  raises (\<open>Inl\<close>) or returns (\<open>Inr\<close>) and leaves a new world. \<open>call\<close> gives every handler
  its behaviour. The world is paired with the list of the handlers called so far, so that
  a theorem can say which handlers ran and in what order. Handlers act on the world only,
  never on the store of the dispatchers.
\<close>

datatype 'x raised = Builtin pyerror | Handler 'x

type_synonym ('h, 'a, 'w, 'x, 'r) calls = "'h \<Rightarrow> 'a \<Rightarrow> 'w \<Rightarrow> ('x + 'r) \<times> 'w"

definition call_fn ::
  "('h, 'a, 'w, 'x, 'r) calls \<Rightarrow> 'h \<Rightarrow> 'a \<Rightarrow> 'w \<times> 'h list \<Rightarrow> ('x + 'r) \<times> 'w \<times> 'h list" where
  "call_fn call fn arg wl = (fst (call fn arg (fst wl)), snd (call fn arg (fst wl)), snd wl @ [fn])"

text \<open>The closure \<^verbatim>\<open>go\<close>: \<^verbatim>\<open>for fn in fn_or_list: fn(*arg, **kw)\<close>, then \<^verbatim>\<open>None\<close>.\<close>

fun go ::
  "('h, 'a, 'w, 'x, 'r) calls \<Rightarrow> 'h list \<Rightarrow> 'a \<Rightarrow> 'w \<times> 'h list
     \<Rightarrow> ('x raised + 'r option) \<times> 'w \<times> 'h list" where
  "go call [] arg wl = (Inr None, wl)"
| "go call (fn # rest) arg wl =
     (case call_fn call fn arg wl of
        (Inl e, wl') \<Rightarrow> (Inl (Handler e), wl')
      | (Inr v, wl') \<Rightarrow> go call rest arg wl')"

text \<open>
  Calling the object \<^verbatim>\<open>dispatch\<close> returned, in the store of the moment of the call: the
  closure reads the list it holds a reference to; a function object is called; a list is
  not callable and a function object is not iterable.
\<close>

fun invoke ::
  "('h, 'a, 'w, 'x, 'r) calls \<Rightarrow> 'h store \<Rightarrow> 'h dispatched \<Rightarrow> 'a \<Rightarrow> 'w \<times> 'h list
     \<Rightarrow> ('x raised + 'r option) \<times> 'w \<times> 'h list" where
  "invoke call s (Go (ListRef a)) arg wl = go call (lists s a) arg wl"
| "invoke call s (Go (Fn g)) arg wl = (Inl (Builtin TypeError), wl)"
| "invoke call s (Bare (Fn g)) arg wl =
     (case call_fn call g arg wl of
        (Inl e, wl') \<Rightarrow> (Inl (Handler e), wl')
      | (Inr v, wl') \<Rightarrow> (Inr (Some v), wl'))"
| "invoke call s (Bare (ListRef a)) arg wl = (Inl (Builtin TypeError), wl)"

text \<open>
  A dispatcher created with \<open>uselist\<close> stores lists only: \<open>lists_only\<close> says so of a
  registry. \<open>slot_handlers\<close> reads the handlers a key holds in such a registry (none
  for a missing key).
\<close>

fun is_list :: "'h pyval \<Rightarrow> bool" where
  "is_list (ListRef a) = True"
| "is_list (Fn g) = False"

definition lists_only :: "'h dispatcher \<Rightarrow> bool" where
  "lists_only d = list_all (\<lambda>(k, v). is_list v) (registry d)"

definition slot_handlers :: "'h store \<Rightarrow> nat \<Rightarrow> pyobj \<times> string \<Rightarrow> 'h list option" where
  "slot_handlers s self key =
     (case map_of (registry (objs s self)) key of
        None \<Rightarrow> Some []
      | Some (ListRef a) \<Rightarrow> Some (lists s a)
      | Some (Fn g) \<Rightarrow> None)"

text \<open>Decorating the functions \<open>fns\<close> one after the other with the same target and qualifier.\<close>

fun register_all :: "'h store \<Rightarrow> nat \<Rightarrow> pyobj \<Rightarrow> string \<Rightarrow> 'h list \<Rightarrow> 'h store" where
  "register_all s self t q [] = s"
| "register_all s self t q (fn # fns) =
     register_all (fst (dispatch_for s self t q fn)) self t q fns"

section \<open>to_tuple\<close>

text \<open>
  The values \<^verbatim>\<open>to_tuple\<close> tells apart: \<^verbatim>\<open>None\<close>, a string, a tuple, any other instance
  of \<^verbatim>\<open>collections.abc.Iterable\<close> (a list, a set, a generator, ...) and any other
  object. An iterable is described by what iterating over it does: it yields the listed
  elements and then stops, or raises, or goes on yielding for ever.
\<close>

datatype iteration = Stops | Raises string | Endless

datatype pyvalue =
    VNone
  | VStr string
  | VTuple "pyvalue list"
  | VIterable "pyvalue list" iteration
  | VOther nat

fun isinstance_string :: "pyvalue \<Rightarrow> bool" where
  "isinstance_string (VStr s) = True"
| "isinstance_string x = False"

fun isinstance_Iterable :: "pyvalue \<Rightarrow> bool" where
  "isinstance_Iterable (VStr s) = True"
| "isinstance_Iterable (VTuple xs) = True"
| "isinstance_Iterable (VIterable xs it) = True"
| "isinstance_Iterable x = False"

text \<open>
  The builtin \<^verbatim>\<open>tuple(x)\<close>: \<open>Some (Inr t)\<close> is the tuple returned, \<open>Some (Inl e)\<close> the
  exception raised, \<open>None\<close> a call that does not return.
\<close>

fun tuple :: "pyvalue \<Rightarrow> (string + pyvalue) option" where
  "tuple (VTuple xs) = Some (Inr (VTuple xs))"
| "tuple (VIterable xs Stops) = Some (Inr (VTuple xs))"
| "tuple (VIterable xs (Raises e)) = Some (Inl e)"
| "tuple (VIterable xs Endless) = None"
| "tuple (VStr s) = Some (Inr (VTuple (map (\<lambda>c. VStr [c]) s)))"
| "tuple x = Some (Inl ''TypeError'')"

definition to_tuple :: "pyvalue \<Rightarrow> pyvalue \<Rightarrow> (string + pyvalue) option" where
  "to_tuple x dflt =
     (if x = VNone then Some (Inr dflt)
      else if isinstance_string x then Some (Inr (VTuple [x]))
      else if isinstance_Iterable x then tuple x
      else Some (Inr (VTuple [x])))"

section \<open>Sample data\<close>

text \<open>
  A class table with the chain \<open>Grandparent \<rightarrow> Parent \<rightarrow> Child\<close>, in which every other
  class (\<^verbatim>\<open>tuple\<close> too) derives from \<^verbatim>\<open>object\<close> directly, and a store with no object
  in it.
\<close>

definition sample_mro :: "tyname \<Rightarrow> tyname list" where
  "sample_mro c =
     (if c = ''Child'' then [''Child'', ''Parent'', ''Grandparent'', ''object'']
      else if c = ''Parent'' then [''Parent'', ''Grandparent'', ''object'']
      else if c = ''object'' then [''object'']
      else [c, ''object''])"

definition empty_store :: "nat store" where
  "empty_store =
     \<lparr>objs = (\<lambda>i. \<lparr>registry = [], uselist = False\<rparr>), nobjs = 0, lists = (\<lambda>i. []), nlists = 0\<rparr>"

text \<open>
  A single-handler dispatcher with \<open>special\<close> registered on \<open>Grandparent\<close> and a default
  handler on \<open>Parent\<close>; handlers are numbered.
\<close>

definition family_store :: "nat store" where
  "family_store =
     (let (s0, d) = Dispatcher empty_store False;
          s1 = fst (dispatch_for s0 d (PyType ''Grandparent'') ''special'' 1);
          s2 = fst (dispatch_for s1 d (PyType ''Parent'') ''default'' 2)
      in s2)"

text \<open>A \<open>uselist\<close> dispatcher with three handlers registered for the string \<open>x\<close>.\<close>

definition multi_store :: "nat store" where
  "multi_store =
     (let (s0, d) = Dispatcher empty_store True;
          s1 = fst (dispatch_for s0 d (PyStr ''x'') ''default'' 1);
          s2 = fst (dispatch_for s1 d (PyStr ''x'') ''default'' 2);
          s3 = fst (dispatch_for s2 d (PyStr ''x'') ''default'' 3)
      in s3)"

text \<open>
  A \<open>uselist\<close> dispatcher (object 0) with one handler for \<open>x\<close>, and its branch (object 1).
\<close>

definition branched :: "nat store" where
  "branched =
     fst (branch (fst (dispatch_for (fst (Dispatcher empty_store True)) 0
                         (PyStr ''x'') ''default'' 1)) 0)"

text \<open>
  Handlers that append their number to the world, a list of numbers: with \<open>log_call\<close>
  every handler returns, with \<open>boom_call\<close> handler 2 raises.
\<close>

definition log_call :: "nat \<Rightarrow> unit \<Rightarrow> nat list \<Rightarrow> (string + unit) \<times> nat list" where
  "log_call h arg w = (Inr (), w @ [h])"

definition boom_call :: "nat \<Rightarrow> unit \<Rightarrow> nat list \<Rightarrow> (string + unit) \<times> nat list" where
  "boom_call h arg w = (if h = 2 then Inl ''boom'' else Inr (), w @ [h])"

section \<open>Facts about the store and the samples\<close>

lemma map_of_setitem:
  "map_of (registry (objs (setitem s self key v) self)) = (map_of (registry (objs s self)))(key \<mapsto> v)"
  by (simp add: setitem_def update_conv')

lemma setitem_frame:
  "uselist (objs (setitem s d k v) i) = uselist (objs s i)"
  "i \<noteq> d \<Longrightarrow> objs (setitem s d k v) i = objs s i"
  "lists (setitem s d k v) = lists s"
  "nlists (setitem s d k v) = nlists s"
  by (simp_all add: setitem_def)

lemma list_all_update:
  "list_all P al \<Longrightarrow> P (k, v) \<Longrightarrow> list_all P (AList.update k v al)"
  by (induction al) auto

lemma family_store_simps:
  "registry (objs family_store 0) =
     [((PyType ''Grandparent'', ''special''), Fn 1), ((PyType ''Parent'', ''default''), Fn 2)]"
  "uselist (objs family_store 0) = False"
  by (simp_all add: family_store_def Dispatcher_def empty_store_def dispatch_for_def
      setitem_def Let_def)

lemma multi_store_simps:
  "registry (objs multi_store 0) = [((PyStr ''x'', ''default''), ListRef 0)]"
  "uselist (objs multi_store 0) = True"
  "lists multi_store 0 = [1, 2, 3]"
  by (simp_all add: multi_store_def Dispatcher_def empty_store_def dispatch_for_def
      setitem_def new_list_def list_append_def Let_def)

section \<open>The probe sequence\<close>

text \<open>
  C5. The probe sequence of a string is the string alone; that of a type is the type's
  \<^verbatim>\<open>__mro__\<close>; that of any other object is the probe sequence of its type. Where the
  \<^verbatim>\<open>__mro__\<close> of a class starts with the class and ends with \<^verbatim>\<open>object\<close>, as Python
  builds it, the probe sequence starts with the type itself and ends with \<^verbatim>\<open>object\<close>.
\<close>

theorem targets_probe_sequence:
  "targets mro (PyStr s) = [PyStr s] \<and>
   targets mro (PyType c) = map PyType (mro c) \<and>
   (\<not> isinstance_str obj \<and> \<not> isinstance_type obj \<longrightarrow>
      targets mro obj = targets mro (PyType (type_of obj))) \<and>
   (mro c \<noteq> [] \<and> hd (mro c) = c \<and> last (mro c) = ''object'' \<longrightarrow>
      hd (targets mro (PyType c)) = PyType c \<and>
      last (targets mro (PyType c)) = PyType ''object'')"
  by (simp add: targets_def hd_map last_map)

theorem targets_probe_sequence_witness:
  "targets sample_mro (PyStr ''foo'') = [PyStr ''foo''] \<and>
   targets sample_mro (PyType ''Child'') =
     [PyType ''Child'', PyType ''Parent'', PyType ''Grandparent'', PyType ''object''] \<and>
   targets sample_mro (PyInst ''Child'' 7) = targets sample_mro (PyType ''Child'') \<and>
   hd (targets sample_mro (PyType ''Child'')) = PyType ''Child'' \<and>
   last (targets sample_mro (PyType ''Child'')) = PyType ''object''"
  using targets_probe_sequence [where mro = sample_mro and s = "''foo''" and c = "''Child''"
      and obj = "PyInst ''Child'' 7"]
  by (simp add: sample_mro_def)

section \<open>Resolution\<close>

lemma dispatch_loop_skip:
  "\<forall>u \<in> set pre. map_of (registry d) (u, q) = None \<and> map_of (registry d) (u, ''default'') = None
   \<Longrightarrow> dispatch_loop d q (pre @ rest) = dispatch_loop d q rest"
  by (induction pre) auto

lemma dispatch_loop_None:
  "dispatch_loop d q ts = None \<longleftrightarrow>
     (\<forall>u \<in> set ts. map_of (registry d) (u, q) = None \<and> map_of (registry d) (u, ''default'') = None)"
  by (induction ts) auto

lemma dispatch_loop_Some:
  "dispatch_loop d q ts = Some r \<Longrightarrow> \<exists>key v. map_of (registry d) key = Some v \<and> r = fn_or_list d v"
  by (induction ts) (auto split: if_splits)

lemma dispatch_loop_cong:
  "map_of (registry d) = map_of (registry d') \<Longrightarrow> uselist d = uselist d' \<Longrightarrow>
   dispatch_loop d q ts = dispatch_loop d' q ts"
  by (induction ts) (auto simp add: fn_or_list_def)

lemma dispatch_Inr:
  assumes "dispatch s self mro obj q = (s', Inr r)"
  shows "s' = s \<and>
         (\<exists>key v. map_of (registry (objs s self)) key = Some v \<and> r = fn_or_list (objs s self) v)"
proof -
  from assms have *: "dispatch_loop (objs s self) q (targets mro obj) = Some r" and "s' = s"
    by (auto simp add: dispatch_def split: option.splits sum.splits)
  with dispatch_loop_Some [OF *] show ?thesis by blast
qed

lemma dispatch_first_probe:
  assumes "targets mro obj = t # rest" and "map_of (registry (objs s self)) (t, q) = Some v"
  shows "dispatch s self mro obj q = (s, Inr (fn_or_list (objs s self) v))"
  using assms by (auto simp add: dispatch_def)

text \<open>
  C1. Let \<open>t\<close> be the first entry of the probe sequence with a registration under the
  qualifier or under \<open>default\<close>. Then dispatch returns what is registered for \<open>t\<close> under
  the qualifier when the qualifier is not \<open>default\<close> and has a registration there, and
  what is registered for \<open>t\<close> under \<open>default\<close> otherwise. Nothing is assumed of the
  entries after \<open>t\<close>: a default registration at \<open>t\<close> is returned whatever is registered
  under the qualifier for a less specific ancestor.
\<close>

theorem dispatch_most_specific_first:
  assumes "targets mro obj = pre @ t # post"
    and "\<forall>u \<in> set pre. map_of (registry (objs s self)) (u, q) = None
                      \<and> map_of (registry (objs s self)) (u, ''default'') = None"
    and "map_of (registry (objs s self)) (t, q) \<noteq> None
         \<or> map_of (registry (objs s self)) (t, ''default'') \<noteq> None"
  shows "dispatch s self mro obj q =
           (s, Inr (fn_or_list (objs s self)
                     (the (if q \<noteq> ''default'' \<and> map_of (registry (objs s self)) (t, q) \<noteq> None
                           then map_of (registry (objs s self)) (t, q)
                           else map_of (registry (objs s self)) (t, ''default'')))))"
  using assms(3) by (auto simp add: dispatch_def assms(1) dispatch_loop_skip [OF assms(2)])

theorem dispatch_most_specific_first_witness:
  "map_of (registry (objs family_store 0)) (PyType ''Grandparent'', ''special'') = Some (Fn 1) \<and>
   dispatch family_store 0 sample_mro (PyInst ''Child'' 0) ''special''
     = (family_store, Inr (Bare (Fn 2)))"
  using dispatch_most_specific_first [where mro = sample_mro and obj = "PyInst ''Child'' 0"
      and pre = "[PyType ''Child'']" and t = "PyType ''Parent''"
      and post = "[PyType ''Grandparent'', PyType ''object'']" and s = family_store and self = 0
      and q = "''special''"]
  by (simp add: family_store_simps targets_def sample_mro_def fn_or_list_def)

section \<open>No dispatch target\<close>

lemma dispatch_no_target:
  assumes "\<forall>u \<in> set (targets mro obj). map_of (registry (objs s self)) (u, q) = None
                      \<and> map_of (registry (objs s self)) (u, ''default'') = None"
  shows "dispatch s self mro obj q =
           (s, case percent_s obj of Inl e \<Rightarrow> Inl e | Inr named \<Rightarrow> Inl (ValueError named))"
  using assms dispatch_loop_None [of "objs s self" q "targets mro obj"]
  by (simp add: dispatch_def split: sum.splits)

lemma percent_s_not_tuple: "(\<forall>xs. obj \<noteq> PyTuple xs) \<Longrightarrow> percent_s obj = Inr obj"
  by (cases obj) auto

lemma dispatch_no_target_not_tuple:
  assumes "\<forall>u \<in> set (targets mro obj). map_of (registry (objs s self)) (u, q) = None
                      \<and> map_of (registry (objs s self)) (u, ''default'') = None"
    and "\<forall>xs. obj \<noteq> PyTuple xs"
  shows "dispatch s self mro obj q = (s, Inl (ValueError obj))"
  using dispatch_no_target [OF assms(1)] percent_s_not_tuple [OF assms(2)] by simp

text \<open>
  C6. With nothing registered, dispatching on a tuple of two elements or on the empty
  tuple raises \<^verbatim>\<open>TypeError\<close> from the \<^verbatim>\<open>%\<close> that builds the message, not the
  \<^verbatim>\<open>ValueError\<close>; dispatching on a tuple of one element raises a \<^verbatim>\<open>ValueError\<close>
  whose message names the element, not the tuple. (For a target that is not a tuple the
  \<^verbatim>\<open>ValueError\<close> names the target: \<open>dispatch_no_target_not_tuple\<close>.)
\<close>

theorem dispatch_tuple_target:
  "dispatch (fst (Dispatcher empty_store False)) 0 sample_mro
       (PyTuple [PyStr ''a'', PyStr ''b'']) ''default''
     = (fst (Dispatcher empty_store False), Inl TypeError) \<and>
   dispatch (fst (Dispatcher empty_store False)) 0 sample_mro (PyTuple []) ''default''
     = (fst (Dispatcher empty_store False), Inl TypeError) \<and>
   dispatch (fst (Dispatcher empty_store False)) 0 sample_mro (PyTuple [PyStr ''a'']) ''default''
     = (fst (Dispatcher empty_store False), Inl (ValueError (PyStr ''a'')))"
  by (simp add: dispatch_def Dispatcher_def empty_store_def targets_def sample_mro_def)

section \<open>Registration\<close>

lemma dispatch_for_frame:
  "i \<noteq> self \<Longrightarrow> objs (fst (dispatch_for s self t q fn)) i = objs s i"
  by (simp add: dispatch_for_def setitem_def list_append_def new_list_def
      split: option.splits pyval.splits)

lemma dispatch_for_uselist:
  "uselist (objs (fst (dispatch_for s self t q fn)) i) = uselist (objs s i)"
  by (simp add: dispatch_for_def setitem_def list_append_def new_list_def
      split: option.splits pyval.splits)

lemma dispatch_for_keeps_lists_only:
  assumes "uselist (objs s i) \<longrightarrow> lists_only (objs s i)"
  shows "uselist (objs (fst (dispatch_for s self t q fn)) i)
           \<longrightarrow> lists_only (objs (fst (dispatch_for s self t q fn)) i)"
  using assms
  by (auto simp add: dispatch_for_def setitem_def list_append_def new_list_def lists_only_def
      list_all_update split: option.splits pyval.splits)

lemma dispatch_other_dispatcher:
  "i \<noteq> self \<Longrightarrow>
   snd (dispatch (fst (dispatch_for s self t q fn)) i mro obj q') = snd (dispatch s i mro obj q')"
  by (simp add: dispatch_def dispatch_for_frame split: option.splits sum.splits)

text \<open>
  C3. In a dispatcher without \<open>uselist\<close>, decorating for a key that holds a handler
  raises \<^verbatim>\<open>AssertionError\<close> and leaves the store as it was, so the handler stays;
  decorating for the same target under another qualifier, not registered yet, returns,
  stores the new handler under its key and keeps the first one.
\<close>

theorem dispatch_for_duplicate:
  assumes "\<not> uselist (objs s self)"
    and "map_of (registry (objs s self)) (t, q) = Some v"
  shows "dispatch_for s self t q fn = (s, Inl AssertionError) \<and>
         (q' \<noteq> q \<and> map_of (registry (objs s self)) (t, q') = None \<longrightarrow>
            snd (dispatch_for s self t q' fn') = Inr fn' \<and>
            map_of (registry (objs (fst (dispatch_for s self t q' fn')) self)) (t, q') = Some (Fn fn') \<and>
            map_of (registry (objs (fst (dispatch_for s self t q' fn')) self)) (t, q) = Some v)"
  using assms by (simp add: dispatch_for_def map_of_setitem)

theorem dispatch_for_duplicate_witness:
  "dispatch_for family_store 0 (PyType ''Parent'') ''default'' 5 = (family_store, Inl AssertionError) \<and>
   snd (dispatch_for family_store 0 (PyType ''Parent'') ''special'' 6) = Inr 6 \<and>
   map_of (registry (objs (fst (dispatch_for family_store 0 (PyType ''Parent'') ''special'' 6)) 0))
     (PyType ''Parent'', ''special'') = Some (Fn 6) \<and>
   map_of (registry (objs (fst (dispatch_for family_store 0 (PyType ''Parent'') ''special'' 6)) 0))
     (PyType ''Parent'', ''default'') = Some (Fn 2)"
  using dispatch_for_duplicate [where s = family_store and self = 0 and t = "PyType ''Parent''"
      and q = "''default''" and v = "Fn 2" and q' = "''special''" and fn = 5 and fn' = 6]
  by (simp add: family_store_simps)

text \<open>
  C8. A decoration that raises leaves the store as it was, and dispatch returns the store
  it was given, whether it returns a handler or raises.
\<close>

theorem register_dispatch_all_or_nothing:
  "(snd (dispatch_for s self t q fn) = Inl e \<longrightarrow> fst (dispatch_for s self t q fn) = s) \<and>
   fst (dispatch s self mro obj q) = s"
  by (auto simp add: dispatch_for_def dispatch_def Let_def new_list_def
      split: option.splits pyval.splits sum.splits)

theorem register_dispatch_all_or_nothing_witness:
  "snd (dispatch_for family_store 0 (PyType ''Parent'') ''default'' 5) = Inl AssertionError \<and>
   fst (dispatch_for family_store 0 (PyType ''Parent'') ''default'' 5) = family_store \<and>
   snd (dispatch family_store 0 sample_mro (PyStr ''foo'') ''default'') = Inl (ValueError (PyStr ''foo'')) \<and>
   fst (dispatch family_store 0 sample_mro (PyStr ''foo'') ''default'') = family_store"
  using register_dispatch_all_or_nothing [where s = family_store and self = 0
      and t = "PyType ''Parent''" and q = "''default''" and fn = 5 and e = AssertionError
      and mro = sample_mro and obj = "PyStr ''foo''"]
  by (simp add: family_store_simps dispatch_for_def dispatch_def targets_def)

text \<open>
  C9. A decoration that returns, returns the function it was given; so does a second
  decoration applied to the result of the first.
\<close>

theorem dispatch_for_returns_handler:
  "snd (dispatch_for s self t q fn) = Inr r \<Longrightarrow>
     r = fn \<and>
     (snd (dispatch_for (fst (dispatch_for s self t q fn)) self' t' q' r) = Inr r' \<longrightarrow> r' = fn)"
  by (auto simp add: dispatch_for_def Let_def new_list_def
      split: option.splits pyval.splits if_splits)

theorem dispatch_for_returns_handler_witness:
  "snd (dispatch_for family_store 0 (PyStr ''a'') ''default'' 7) = Inr 7 \<and>
   snd (dispatch_for (fst (dispatch_for family_store 0 (PyStr ''a'') ''default'' 7)) 0
          (PyStr ''b'') ''default'' 7) = Inr 7"
  using dispatch_for_returns_handler [where s = family_store and self = 0 and t = "PyStr ''a''"
      and q = "''default''" and fn = 7 and r = 7 and self' = 0 and t' = "PyStr ''b''"
      and q' = "''default''" and r' = 7]
  by (simp add: family_store_simps dispatch_for_def setitem_def)

section \<open>Lists of handlers\<close>

lemma register_all_present:
  assumes "uselist (objs s self)" and "map_of (registry (objs s self)) (t, q) = Some (ListRef a)"
  shows "objs (register_all s self t q fns) = objs s \<and>
         lists (register_all s self t q fns) a = lists s a @ fns"
  using assms
proof (induction fns arbitrary: s)
  case Nil
  then show ?case by simp
next
  case (Cons fn fns)
  have step: "fst (dispatch_for s self t q fn) = list_append s a fn"
    using Cons.prems by (simp add: dispatch_for_def)
  have "objs (list_append s a fn) = objs s" by (simp add: list_append_def)
  with Cons.IH [of "list_append s a fn"] Cons.prems step show ?case
    by (simp add: list_append_def)
qed

lemma dispatch_for_absent:
  assumes "uselist (objs s self)" and "map_of (registry (objs s self)) (t, q) = None"
  shows "uselist (objs (fst (dispatch_for s self t q fn)) self) \<and>
         map_of (registry (objs (fst (dispatch_for s self t q fn)) self)) (t, q)
           = Some (ListRef (nlists s)) \<and>
         lists (fst (dispatch_for s self t q fn)) (nlists s) = [fn]"
  using assms
  by (simp add: dispatch_for_def new_list_def list_append_def setitem_def update_conv')

lemma register_all_slot:
  assumes "uselist (objs s self)" and "slot_handlers s self (t, q) = Some old" and "fns \<noteq> []"
  shows "\<exists>a. uselist (objs (register_all s self t q fns) self) \<and>
             map_of (registry (objs (register_all s self t q fns) self)) (t, q) = Some (ListRef a) \<and>
             lists (register_all s self t q fns) a = old @ fns"
proof (cases "map_of (registry (objs s self)) (t, q)")
  case None
  obtain fn rest where fns: "fns = fn # rest" using assms(3) by (cases fns) auto
  let ?s1 = "fst (dispatch_for s self t q fn)"
  from dispatch_for_absent [OF assms(1) None, of fn]
  have 1: "uselist (objs ?s1 self)"
    and 2: "map_of (registry (objs ?s1 self)) (t, q) = Some (ListRef (nlists s))"
    and 3: "lists ?s1 (nlists s) = [fn]" by auto
  from None assms(2) have "old = []" by (simp add: slot_handlers_def)
  with register_all_present [OF 1 2, of rest] 1 2 3 fns show ?thesis by auto
next
  case (Some v)
  with assms(2) obtain a where v: "v = ListRef a" and old: "old = lists s a"
    by (cases v) (auto simp add: slot_handlers_def)
  from register_all_present [of s self t q a fns] assms(1) Some v old show ?thesis by auto
qed

lemma go_all_return:
  assumes "\<forall>h \<in> set fns. \<forall>w. \<not> isl (fst (call h arg w))"
  shows "fst (go call fns arg wl) = Inr None \<and> snd (snd (go call fns arg wl)) = snd wl @ fns"
  using assms
proof (induction fns arbitrary: wl)
  case Nil
  then show ?case by simp
next
  case (Cons h fns)
  from Cons.prems have "\<not> isl (fst (call h arg (fst wl)))" by simp
  then obtain v where v: "fst (call h arg (fst wl)) = Inr v"
    by (cases "fst (call h arg (fst wl))") auto
  have "go call (h # fns) arg wl = go call fns arg (snd (call h arg (fst wl)), snd wl @ [h])"
    using v by (simp add: call_fn_def)
  with Cons.IH [of "(snd (call h arg (fst wl)), snd wl @ [h])"] Cons.prems show ?case by simp
qed

lemma go_append_raise:
  assumes "go call pre arg wl = (Inr None, wl1)" and "fst (call h arg (fst wl1)) = Inl e"
  shows "go call (pre @ h # post) arg wl
           = (Inl (Handler e), snd (call h arg (fst wl1)), snd wl1 @ [h])"
  using assms
proof (induction pre arbitrary: wl)
  case Nil
  then show ?case by (simp add: call_fn_def)
next
  case (Cons p pre)
  then show ?case by (auto split: prod.splits sum.splits)
qed

lemma go_log:
  "go call fns arg wl = (Inr None, wl1) \<Longrightarrow> snd wl1 = snd wl @ fns"
proof (induction fns arbitrary: wl)
  case Nil
  then show ?case by auto
next
  case (Cons p pre)
  then show ?case by (fastforce simp add: call_fn_def split: prod.splits sum.splits)
qed

lemma lists_only_lookup:
  "lists_only d \<Longrightarrow> map_of (registry d) key = Some v \<Longrightarrow> \<exists>a. v = ListRef a"
  by (cases v) (auto simp add: lists_only_def list_all_iff dest!: map_of_SomeD)

text \<open>
  C4. In a \<open>uselist\<close> dispatcher whose slot for the key holds the handlers \<open>old\<close> (none
  when the key is missing), decorate the functions \<open>fns\<close>, at least one, for the key, and
  dispatch on an object whose probe sequence starts with the key's target. Dispatch
  returns the closure over the slot's list, and calling it, when no handler raises, returns
  \<^verbatim>\<open>None\<close> after calling exactly \<open>old @ fns\<close>: every handler once, in the order of
  registration.
\<close>

theorem multi_dispatch_calls_all_in_order:
  assumes "uselist (objs s self)"
    and "slot_handlers s self (t, q) = Some old"
    and "fns \<noteq> []"
    and "targets mro obj = t # rest"
    and "\<forall>h \<in> set (old @ fns). \<forall>w. \<not> isl (fst (call h arg w))"
  shows "\<exists>a. dispatch (register_all s self t q fns) self mro obj q
                = (register_all s self t q fns, Inr (Go (ListRef a))) \<and>
             fst (invoke call (register_all s self t q fns) (Go (ListRef a)) arg (w, []))
                = Inr None \<and>
             snd (snd (invoke call (register_all s self t q fns) (Go (ListRef a)) arg (w, [])))
                = old @ fns"
proof -
  let ?s' = "register_all s self t q fns"
  from register_all_slot [OF assms(1,2,3)] obtain a where
    a: "uselist (objs ?s' self)" "map_of (registry (objs ?s' self)) (t, q) = Some (ListRef a)"
       "lists ?s' a = old @ fns" by blast
  have "dispatch ?s' self mro obj q = (?s', Inr (Go (ListRef a)))"
    using dispatch_first_probe [OF assms(4) a(2)] a(1) by (simp add: fn_or_list_def)
  moreover have "fst (invoke call ?s' (Go (ListRef a)) arg (w, [])) = Inr None \<and>
     snd (snd (invoke call ?s' (Go (ListRef a)) arg (w, []))) = old @ fns"
    using go_all_return [of "old @ fns" call arg "(w, [])"] assms(5) a(3) by simp
  ultimately show ?thesis by blast
qed

theorem multi_dispatch_calls_all_in_order_witness:
  "dispatch (register_all (fst (Dispatcher empty_store True)) 0 (PyStr ''x'') ''default'' [1, 2, 3])
       0 sample_mro (PyStr ''x'') ''default''
     = (register_all (fst (Dispatcher empty_store True)) 0 (PyStr ''x'') ''default'' [1, 2, 3],
        Inr (Go (ListRef 0))) \<and>
   invoke log_call
       (register_all (fst (Dispatcher empty_store True)) 0 (PyStr ''x'') ''default'' [1, 2, 3])
       (Go (ListRef 0)) () ([], [])
     = (Inr None, [1, 2, 3], [1, 2, 3])"
  using multi_dispatch_calls_all_in_order [where s = "fst (Dispatcher empty_store True)"
      and self = 0 and t = "PyStr ''x''" and q = "''default''" and old = "[]"
      and fns = "[1, 2, 3]" and mro = sample_mro and obj = "PyStr ''x''" and rest = "[]"
      and call = log_call and arg = "()" and w = "[]"]
  by (simp add: Dispatcher_def empty_store_def dispatch_for_def setitem_def new_list_def
      list_append_def Let_def slot_handlers_def dispatch_def targets_def fn_or_list_def
      log_call_def call_fn_def)

text \<open>
  C7. In a \<open>uselist\<close> dispatcher that stores lists, what dispatch returns is the closure
  over a list. When the handlers \<open>pre\<close> at the front of that list return and the next
  handler \<open>h\<close> raises \<open>e\<close>, calling the closure raises \<open>e\<close>, leaves the world as \<open>h\<close>
  left it, and has called \<open>pre\<close> and then \<open>h\<close>, in this order, and none of the
  handlers \<open>post\<close> behind \<open>h\<close>.
\<close>

theorem multi_aggregate_fail_fast:
  assumes "uselist (objs s self)"
    and "lists_only (objs s self)"
    and "dispatch s self mro obj q = (s', Inr r)"
  shows "\<exists>a. r = Go (ListRef a) \<and>
           (lists s' a = pre @ h # post \<and> go call pre arg wl = (Inr None, wl1) \<and>
            fst (call h arg (fst wl1)) = Inl e \<longrightarrow>
              invoke call s' r arg wl =
                (Inl (Handler e), snd (call h arg (fst wl1)), snd wl @ pre @ [h]))"
proof -
  from dispatch_Inr [OF assms(3)] obtain key v where
    kv: "map_of (registry (objs s self)) key = Some v" "r = fn_or_list (objs s self) v" by blast
  from lists_only_lookup [OF assms(2) kv(1)] obtain a where a: "v = ListRef a" by blast
  have r: "r = Go (ListRef a)" using kv(2) a assms(1) by (simp add: fn_or_list_def)
  show ?thesis
  proof (intro exI conjI impI)
    show "r = Go (ListRef a)" by (rule r)
  next
    assume h: "lists s' a = pre @ h # post \<and> go call pre arg wl = (Inr None, wl1) \<and>
               fst (call h arg (fst wl1)) = Inl e"
    then have "snd wl1 = snd wl @ pre" using go_log by fastforce
    with h r go_append_raise [of call pre arg wl wl1 h e post]
    show "invoke call s' r arg wl =
            (Inl (Handler e), snd (call h arg (fst wl1)), snd wl @ pre @ [h])"
      by simp
  qed
qed

theorem multi_aggregate_fail_fast_witness:
  "dispatch multi_store 0 sample_mro (PyStr ''x'') ''default''
     = (multi_store, Inr (Go (ListRef 0))) \<and>
   lists multi_store 0 = [1, 2, 3] \<and>
   invoke boom_call multi_store (Go (ListRef 0)) () ([], [])
     = (Inl (Handler ''boom''), [1, 2], [1, 2])"
  using multi_aggregate_fail_fast [where s = multi_store and self = 0 and mro = sample_mro
      and obj = "PyStr ''x''" and q = "''default''" and s' = multi_store
      and r = "Go (ListRef 0)" and pre = "[1]" and h = 2 and post = "[3]" and call = boom_call
      and arg = "()" and wl = "([], [])" and ?wl1.0 = "([1], [1])" and e = "''boom''"]
  by (simp add: multi_store_simps lists_only_def dispatch_def targets_def fn_or_list_def
      boom_call_def call_fn_def)

section \<open>branch\<close>

lemma update_items_frame:
  "uselist (objs (update_items s d items) i) = uselist (objs s i) \<and>
   (i \<noteq> d \<longrightarrow> objs (update_items s d items) i = objs s i) \<and>
   lists (update_items s d items) = lists s"
  by (induction s d items rule: update_items.induct) (simp_all add: setitem_frame)

lemma update_copied_ListRef:
  "update_copied s d ((k, ListRef b) # rest) =
     update_copied (setitem (fst (new_list s (lists s b))) d k (ListRef (nlists s))) d rest"
  by (simp add: new_list_def)

lemma update_copied_frame:
  "uselist (objs (fst (update_copied s d items)) i) = uselist (objs s i) \<and>
   (i \<noteq> d \<longrightarrow> objs (fst (update_copied s d items)) i = objs s i) \<and>
   (a < nlists s \<longrightarrow> lists (fst (update_copied s d items)) a = lists s a)"
proof (induction items arbitrary: s)
  case Nil
  show ?case by simp
next
  case (Cons kv rest)
  obtain k v where kv: "kv = (k, v)" by (cases kv)
  show ?case
  proof (cases v)
    case (Fn g)
    with kv show ?thesis by simp
  next
    case (ListRef b)
    let ?s1 = "setitem (fst (new_list s (lists s b))) d k (ListRef (nlists s))"
    have "uselist (objs ?s1 i) = uselist (objs s i)"
      and "i \<noteq> d \<longrightarrow> objs ?s1 i = objs s i"
      and "a < nlists s \<longrightarrow> a < nlists ?s1 \<and> lists ?s1 a = lists s a"
      by (simp_all add: setitem_def new_list_def)
    with Cons.IH [of ?s1] show ?thesis
      unfolding kv ListRef update_copied_ListRef by simp
  qed
qed

text \<open>
  Every path to a dispatcher with \<open>uselist\<close> keeps its registry a registry of lists: the
  constructor starts with no entry, a decoration adds lists only, and a branch leaves
  the other dispatchers as they are and has \<open>uselist\<close> off itself.
\<close>

lemma Dispatcher_lists_only:
  "lists_only (objs (fst (Dispatcher s ul)) (snd (Dispatcher s ul)))"
  by (simp add: Dispatcher_def lists_only_def)

lemma branch_keeps_lists_only:
  assumes "uselist (objs s i) \<longrightarrow> lists_only (objs s i)"
  shows "uselist (objs (fst (branch s self)) i) \<longrightarrow> lists_only (objs (fst (branch s self)) i)"
proof -
  let ?s1 = "fst (Dispatcher s False)"
  let ?items = "registry (objs ?s1 self)"
  have new: "\<not> uselist (objs ?s1 (nobjs s))" and old: "i \<noteq> nobjs s \<longrightarrow> objs ?s1 i = objs s i"
    by (simp_all add: Dispatcher_def)
  have "fst (branch s self) = fst (update_copied ?s1 (nobjs s) ?items)
        \<or> fst (branch s self) = update_items ?s1 (nobjs s) ?items"
    by (auto simp add: branch_def Dispatcher_def split: prod.splits sum.splits)
  then show ?thesis
  proof
    assume b: "fst (branch s self) = fst (update_copied ?s1 (nobjs s) ?items)"
    show ?thesis
      using update_copied_frame [of ?s1 "nobjs s" ?items i] new old assms
      unfolding b by (cases "i = nobjs s") auto
  next
    assume b: "fst (branch s self) = update_items ?s1 (nobjs s) ?items"
    show ?thesis
      using update_items_frame [of ?s1 "nobjs s" ?items i] new old assms
      unfolding b by (cases "i = nobjs s") auto
  qed
qed

text \<open>Whatever the dispatcher branched from, the branch is a dispatcher without \<open>uselist\<close>.\<close>

lemma branch_never_uselist:
  assumes "branch s self = (s', Inr d)"
  shows "d = nobjs s \<and> \<not> uselist (objs s' d)"
proof -
  let ?s1 = "fst (Dispatcher s False)"
  have new: "\<not> uselist (objs ?s1 (nobjs s))" by (simp add: Dispatcher_def)
  show ?thesis
  proof (cases "uselist (objs ?s1 self)")
    case True
    with assms have "s' = fst (update_copied ?s1 (nobjs s) (registry (objs ?s1 self)))"
      and "d = nobjs s"
      by (auto simp add: branch_def Dispatcher_def split: prod.splits sum.splits)
    with new update_copied_frame [of ?s1 "nobjs s" "registry (objs ?s1 self)" "nobjs s"]
    show ?thesis by simp
  next
    case False
    with assms have "s' = update_items ?s1 (nobjs s) (registry (objs ?s1 self))"
      and "d = nobjs s"
      by (auto simp add: branch_def Dispatcher_def)
    with new update_items_frame [of ?s1 "nobjs s" "registry (objs ?s1 self)" "nobjs s"]
    show ?thesis by simp
  qed
qed

lemma map_of_update_items:
  "distinct (map fst items) \<Longrightarrow>
   map_of (registry (objs (update_items s d items) d)) = map_of (registry (objs s d)) ++ map_of items"
proof (induction s d items rule: update_items.induct)
  case (1 s d)
  show ?case by simp
next
  case (2 s d k v rest)
  then have "map_of (registry (objs (update_items (setitem s d k v) d rest) d))
              = map_of (registry (objs (setitem s d k v) d)) ++ map_of rest" by simp
  moreover have "map_of (registry (objs (setitem s d k v) d)) = (map_of (registry (objs s d)))(k \<mapsto> v)"
    by (simp add: setitem_def update_conv')
  moreover have "k \<notin> dom (map_of rest)"
    using "2.prems" by (auto simp add: dom_map_of_conv_image_fst)
  ultimately show ?case
    by (auto simp add: map_add_def fun_eq_iff split: option.splits)
qed

text \<open>
  The branch of a dispatcher without \<open>uselist\<close> (an existing object; a \<^verbatim>\<open>dict\<close> has no
  key twice) is a new object that resolves every target as the original does; the
  original and the lists are untouched. By \<open>dispatch_other_dispatcher\<close>, a decoration on
  one of the two then changes nothing of what the other resolves.
\<close>

lemma branch_single_copy:
  assumes "\<not> uselist (objs s self)" and "self \<noteq> nobjs s"
    and "distinct (map fst (registry (objs s self)))"
  shows "snd (branch s self) = Inr (nobjs s) \<and>
         objs (fst (branch s self)) self = objs s self \<and>
         lists (fst (branch s self)) = lists s \<and>
         snd (dispatch (fst (branch s self)) (nobjs s) mro obj q) = snd (dispatch s self mro obj q)"
proof -
  let ?s1 = "fst (Dispatcher s False)"
  let ?s' = "update_items ?s1 (nobjs s) (registry (objs s self))"
  have s1: "objs ?s1 self = objs s self" "registry (objs ?s1 (nobjs s)) = []"
    "\<not> uselist (objs ?s1 (nobjs s))" "lists ?s1 = lists s"
    using assms(2) by (simp_all add: Dispatcher_def)
  have b: "branch s self = (?s', Inr (nobjs s))"
    using assms(1,2) by (simp add: branch_def Dispatcher_def)
  have 1: "objs ?s' self = objs s self"
    using update_items_frame [of ?s1 "nobjs s" "registry (objs s self)" self] assms(2) s1 by simp
  have 2: "lists ?s' = lists s"
    using update_items_frame [of ?s1 "nobjs s" "registry (objs s self)" self] s1 by simp
  have 3: "map_of (registry (objs ?s' (nobjs s))) = map_of (registry (objs s self))"
    using map_of_update_items [OF assms(3), of ?s1 "nobjs s"] s1 by simp
  have 4: "uselist (objs ?s' (nobjs s)) = uselist (objs s self)"
    using update_items_frame [of ?s1 "nobjs s" "registry (objs s self)" "nobjs s"] s1 assms(1)
    by simp
  have "dispatch_loop (objs ?s' (nobjs s)) q (targets mro obj)
          = dispatch_loop (objs s self) q (targets mro obj)"
    by (rule dispatch_loop_cong [OF 3 4])
  then have 5: "snd (dispatch ?s' (nobjs s) mro obj q) = snd (dispatch s self mro obj q)"
    by (simp add: dispatch_def split: option.splits sum.splits)
  show ?thesis using b 1 2 5 by simp
qed

text \<open>
  C2. The branch of a \<open>uselist\<close> dispatcher with one handler for \<open>x\<close>: the branch
  (object 1) has \<open>uselist\<close> off although the original (object 0) has it on; its slot is a
  new list with the same handler; dispatching on the original returns the closure over
  its list, dispatching on the branch returns the bare list, and calling that raises
  \<^verbatim>\<open>TypeError\<close>; decorating another handler for \<open>x\<close> extends the list of the original
  and raises \<^verbatim>\<open>AssertionError\<close> on the branch.
\<close>

theorem branch_drops_uselist:
  "uselist (objs branched 0) \<and>
   snd (branch (fst (dispatch_for (fst (Dispatcher empty_store True)) 0
                       (PyStr ''x'') ''default'' 1)) 0) = Inr 1 \<and>
   \<not> uselist (objs branched 1) \<and>
   lists branched 0 = [1] \<and> lists branched 1 = [1] \<and>
   dispatch branched 0 sample_mro (PyStr ''x'') ''default'' = (branched, Inr (Go (ListRef 0))) \<and>
   dispatch branched 1 sample_mro (PyStr ''x'') ''default'' = (branched, Inr (Bare (ListRef 1))) \<and>
   invoke log_call branched (Go (ListRef 0)) () ([], []) = (Inr None, [1], [1]) \<and>
   invoke log_call branched (Bare (ListRef 1)) () ([], []) = (Inl (Builtin TypeError), [], []) \<and>
   dispatch_for branched 0 (PyStr ''x'') ''default'' 3 = (list_append branched 0 3, Inr 3) \<and>
   dispatch_for branched 1 (PyStr ''x'') ''default'' 3 = (branched, Inl AssertionError)"
  by (simp add: branched_def branch_def Dispatcher_def empty_store_def dispatch_for_def
      setitem_def new_list_def list_append_def Let_def dispatch_def targets_def fn_or_list_def
      log_call_def call_fn_def)

section \<open>to_tuple\<close>

text \<open>
  C10 as stated does not hold: for an iterable whose iteration raises (a generator that
  yields \<open>a\<close> and then raises \<^verbatim>\<open>RuntimeError\<close>), \<^verbatim>\<open>to_tuple\<close> raises that exception.
\<close>

theorem to_tuple_raises:
  "to_tuple (VIterable [VStr ''a''] (Raises ''RuntimeError'')) VNone = Some (Inl ''RuntimeError'')"
  by (simp add: to_tuple_def)

text \<open>
  C10, amended. \<^verbatim>\<open>to_tuple(x, default)\<close> returns \<open>default\<close> when \<open>x\<close> is \<^verbatim>\<open>None\<close>, the
  one-element tuple \<open>(x,)\<close> when \<open>x\<close> is a string, the tuple of the elements of \<open>x\<close> in
  iteration order when \<open>x\<close> is another iterable whose iteration stops, and \<open>(x,)\<close> when
  \<open>x\<close> is anything else. It raises only what iterating over \<open>x\<close> raises, and it returns
  or raises unless \<open>x\<close> yields for ever.
\<close>

theorem to_tuple_cases:
  "to_tuple VNone d = Some (Inr d) \<and>
   to_tuple (VStr s) d = Some (Inr (VTuple [VStr s])) \<and>
   to_tuple (VTuple xs) d = Some (Inr (VTuple xs)) \<and>
   to_tuple (VIterable xs Stops) d = Some (Inr (VTuple xs)) \<and>
   to_tuple (VIterable xs (Raises e)) d = Some (Inl e) \<and>
   to_tuple (VOther n) d = Some (Inr (VTuple [VOther n])) \<and>
   (to_tuple x d = Some (Inl e') \<longrightarrow> (\<exists>ys. x = VIterable ys (Raises e'))) \<and>
   (to_tuple x d = None \<longrightarrow> (\<exists>ys. x = VIterable ys Endless))"
  by (cases x rule: tuple.cases) (auto simp add: to_tuple_def)

theorem to_tuple_cases_witness:
  "to_tuple VNone (VTuple []) = Some (Inr (VTuple [])) \<and>
   to_tuple (VStr ''head'') VNone = Some (Inr (VTuple [VStr ''head''])) \<and>
   to_tuple (VTuple [VStr ''a'', VStr ''b'']) VNone = Some (Inr (VTuple [VStr ''a'', VStr ''b''])) \<and>
   to_tuple (VIterable [VStr ''a'', VStr ''b''] Stops) VNone
     = Some (Inr (VTuple [VStr ''a'', VStr ''b''])) \<and>
   to_tuple (VIterable [VStr ''a''] (Raises ''KeyError'')) VNone = Some (Inl ''KeyError'') \<and>
   to_tuple (VOther 3) VNone = Some (Inr (VTuple [VOther 3])) \<and>
   to_tuple (VIterable [] Endless) VNone = None"
  using to_tuple_cases [where d = VNone and s = "''head''" and xs = "[VStr ''a'', VStr ''b'']"
      and e = "''KeyError''" and n = 3 and x = "VIterable [VStr ''a''] (Raises ''KeyError'')"
      and e' = "''KeyError''"]
    to_tuple_cases [where d = "VTuple []" and x = "VIterable [] Endless"]
  by (simp add: to_tuple_def)

end
